theory Spec2Isabelle
  imports Main "HOL-Library.Multiset"
begin

section \<open>raft::range at the instantiation A = B = int\<close>

text \<open>
  \<^verbatim>\<open>range\<close> is a template over two arithmetic types; its comment promises a
  vector of integers from \<open>a\<close> to \<open>b\<close>, both inclusive. The embedding takes the
  instantiation \<^verbatim>\<open>range<int, int>\<close> (the one chosen for \<^verbatim>\<open>range(1, 5)\<close>), with
  \<^verbatim>\<open>int\<close> a 32-bit two's complement integer. Values are mathematical integers
  inside the bounds of the type; an operation whose result leaves the bounds is
  undefined in C++ and is the error \<open>SignedOverflow\<close> here. The other ways in
  which the function does not return a vector are errors as well: division by
  a zero step, a negative capacity handed to the vector's constructor (the
  conversion to the unsigned size type makes it larger than any vector may be,
  and the constructor throws), and a write \<^verbatim>\<open>out[index]\<close> with \<open>index\<close> not
  below the vector's size, which \<^verbatim>\<open>operator[]\<close> does not check and C++ leaves
  undefined. That last error records the index, the value that was to be
  stored and the vector as it was at that moment. Running out of memory is not
  modelled.
\<close>

datatype error =
    DivideByZero
  | SignedOverflow
  | LengthError
  | OutOfBounds nat int "int list"

definition INT_MIN :: int where
  "INT_MIN = - 2147483648"

definition INT_MAX :: int where
  "INT_MAX = 2147483647"

definition in_int :: "int \<Rightarrow> bool" where
  "in_int x \<longleftrightarrow> INT_MIN \<le> x \<and> x \<le> INT_MAX"

definition checked :: "int \<Rightarrow> error + int" where
  "checked x = (if in_int x then Inr x else Inl SignedOverflow)"

definition int_add :: "int \<Rightarrow> int \<Rightarrow> error + int" where
  "int_add x y = checked (x + y)"

definition int_sub :: "int \<Rightarrow> int \<Rightarrow> error + int" where
  "int_sub x y = checked (x - y)"

text \<open>The quotient of \<^verbatim>\<open>/\<close> on integers is truncated towards zero.\<close>

definition int_div :: "int \<Rightarrow> int \<Rightarrow> error + int" where
  "int_div x y =
     (if y = 0 then Inl DivideByZero
      else checked (sgn x * sgn y * (\<bar>x\<bar> div \<bar>y\<bar>)))"

definition and_then :: "error + 'a \<Rightarrow> ('a \<Rightarrow> error + 'b) \<Rightarrow> error + 'b" where
  "and_then m f = (case m of Inl e \<Rightarrow> Inl e | Inr x \<Rightarrow> f x)"

text \<open>
  \<^verbatim>\<open>common_v_t< A, B > out( cap )\<close>: a vector of \<open>cap\<close> value-initialised
  elements.
\<close>

definition vector_alloc :: "int \<Rightarrow> error + int list" where
  "vector_alloc cap =
     (if cap < 0 then Inl LengthError else Inr (replicate (nat cap) 0))"

text \<open>
  The ascending loop
  \<^verbatim>\<open>for( i = a; std::islessequal( i, b + delta ); i += delta, index++ ) out[ index ] = i;\<close>
  from the state \<open>(i, index, out)\<close>. The condition evaluates \<^verbatim>\<open>b + delta\<close> on
  every iteration; the body writes; then \<open>i\<close> advances.
\<close>

function asc_loop :: "int \<Rightarrow> int \<Rightarrow> int \<Rightarrow> nat \<Rightarrow> int list \<Rightarrow> error + int list" where
  "asc_loop b delta i index out =
     (case int_add b delta of
        Inl e \<Rightarrow> Inl e
      | Inr lim \<Rightarrow>
          if i \<le> lim then
            if index < length out then
              (case int_add i delta of
                 Inl e \<Rightarrow> Inl e
               | Inr i' \<Rightarrow> asc_loop b delta i' (Suc index) (out[index := i]))
            else Inl (OutOfBounds index i out)
          else Inr out)"
  by pat_completeness auto
termination
  by (relation "measure (\<lambda>(b, delta, i, index, out). length out - index)") auto

text \<open>
  The descending loop
  \<^verbatim>\<open>for( i = a; std::isgreaterequal( i, b - delta ); i -= delta, index++ ) out[ index ] = i;\<close>
\<close>

function desc_loop :: "int \<Rightarrow> int \<Rightarrow> int \<Rightarrow> nat \<Rightarrow> int list \<Rightarrow> error + int list" where
  "desc_loop b delta i index out =
     (case int_sub b delta of
        Inl e \<Rightarrow> Inl e
      | Inr lim \<Rightarrow>
          if i \<ge> lim then
            if index < length out then
              (case int_sub i delta of
                 Inl e \<Rightarrow> Inl e
               | Inr i' \<Rightarrow> desc_loop b delta i' (Suc index) (out[index := i]))
            else Inl (OutOfBounds index i out)
          else Inr out)"
  by pat_completeness auto
termination
  by (relation "measure (\<lambda>(b, delta, i, index, out). length out - index)") auto

declare asc_loop.simps [simp del] desc_loop.simps [simp del]

definition range_raft :: "int \<Rightarrow> int \<Rightarrow> int \<Rightarrow> error + int list" where
  "range_raft a b delta =
     (if a < b then
        and_then (int_sub b a) (\<lambda>d.
        and_then (int_add d delta) (\<lambda>n.
        and_then (int_div n delta) (\<lambda>cap.
        and_then (vector_alloc cap) (\<lambda>out.
          asc_loop b delta a 0 out))))
      else
        and_then (int_sub a b) (\<lambda>d.
        and_then (int_add d delta) (\<lambda>n.
        and_then (int_div n delta) (\<lambda>cap.
        and_then (vector_alloc cap) (\<lambda>out.
          desc_loop b delta a 0 out)))))"

text \<open>The step's default argument, \<^verbatim>\<open>delta = 1\<close>.\<close>

definition range_default :: "int \<Rightarrow> int \<Rightarrow> error + int list" where
  "range_default a b = range_raft a b 1"

section \<open>The folds over ports: raft::sum and raft::mult\<close>

text \<open>
  A port is any object with a member \<^verbatim>\<open>pop( val )\<close> that stores one value in
  \<open>val\<close>; the port classes are declared outside this header. The embedding
  takes \<open>pop\<close> as a parameter: applied to a port handle and the state of the
  world (which holds the queues behind all ports) it gives the popped value and
  the world afterwards. The parameter pack \<^verbatim>\<open>PORTS&&... ports\<close> is the list of
  handles in argument order; \<open>pop\<close> may treat each handle in its own way, as the
  differently typed ports of a call do. The result type \<^verbatim>\<open>RETTYPE\<close> is a type
  variable with the operations the code uses on it (\<open>0\<close> and \<open>+\<close>, \<open>1\<close> and \<open>*\<close>);
  at \<open>int\<close> they are exact.

  \<^verbatim>\<open>sum_helper\<close> has two specialisations: the one without ports, which ends
  the recursion, and the one that pops the first port and then folds the rest.
  The statement \<^verbatim>\<open>port.pop( val )\<close> is complete before the recursive call in
  the \<^verbatim>\<open>return\<close> expression starts.
\<close>

fun sum_helper :: "('p \<Rightarrow> 'w \<Rightarrow> 'a \<times> 'w) \<Rightarrow> 'p list \<Rightarrow> 'w \<Rightarrow> ('a::{zero,plus}) \<times> 'w" where
  "sum_helper pop [] w = (0, w)"
| "sum_helper pop (port # ports) w =
     (case pop port w of
        (val, w1) \<Rightarrow>
          (case sum_helper pop ports w1 of
             (r, w2) \<Rightarrow> (val + r, w2)))"

definition sum_raft :: "('p \<Rightarrow> 'w \<Rightarrow> 'a \<times> 'w) \<Rightarrow> 'p list \<Rightarrow> 'w \<Rightarrow> ('a::{zero,plus}) \<times> 'w" where
  "sum_raft pop ports w = sum_helper pop ports w"

fun mult_helper :: "('p \<Rightarrow> 'w \<Rightarrow> 'a \<times> 'w) \<Rightarrow> 'p list \<Rightarrow> 'w \<Rightarrow> ('a::{one,times}) \<times> 'w" where
  "mult_helper pop [] w = (1, w)"
| "mult_helper pop (port # ports) w =
     (case pop port w of
        (val, w1) \<Rightarrow>
          (case mult_helper pop ports w1 of
             (r, w2) \<Rightarrow> (val * r, w2)))"

definition mult_raft :: "('p \<Rightarrow> 'w \<Rightarrow> 'a \<times> 'w) \<Rightarrow> 'p list \<Rightarrow> 'w \<Rightarrow> ('a::{one,times}) \<times> 'w" where
  "mult_raft pop ports w = mult_helper pop ports w"

subsection \<open>Observing the calls of pop\<close>

text \<open>
  \<open>logged pop\<close> behaves as \<open>pop\<close> and appends the handle to a log of the calls
  made so far. The folds are run unchanged on it.
\<close>

definition logged :: "('p \<Rightarrow> 'w \<Rightarrow> 'a \<times> 'w) \<Rightarrow> 'p \<Rightarrow> 'w \<times> 'p list \<Rightarrow> 'a \<times> ('w \<times> 'p list)" where
  "logged pop port s =
     (case s of
        (w, log) \<Rightarrow>
          (case pop port w of
             (val, w') \<Rightarrow> (val, (w', log @ [port]))))"

text \<open>The values that popping the ports one after the other yields, in order.\<close>

fun popped :: "('p \<Rightarrow> 'w \<Rightarrow> 'a \<times> 'w) \<Rightarrow> 'p list \<Rightarrow> 'w \<Rightarrow> 'a list" where
  "popped pop [] w = []"
| "popped pop (port # ports) w =
     (case pop port w of (val, w1) \<Rightarrow> val # popped pop ports w1)"

text \<open>
  Modelled from the spec: the test source double \<^verbatim>\<open>sourceYielding(v)\<close> with a
  call counter. \<open>yields\<close> gives the fixed value of each double; the world is
  the counter of each double.
\<close>

definition sourceYielding :: "('p \<Rightarrow> 'a) \<Rightarrow> 'p \<Rightarrow> ('p \<Rightarrow> nat) \<Rightarrow> 'a \<times> ('p \<Rightarrow> nat)" where
  "sourceYielding yields port calls = (yields port, calls(port := Suc (calls port)))"

section \<open>What the fill loops do when the step is positive\<close>

text \<open>
  With a positive step and no overflow the capacity is
  \<open>(b - a) div delta + 1\<close> (ascending; \<open>(a - b) div delta + 1\<close> descending), the
  loop fills every element of the vector with \<open>a\<close>, \<open>a + delta\<close>, \<dots> (descending:
  \<open>a\<close>, \<open>a - delta\<close>, \<dots>) and then runs once more, with \<open>index\<close> equal to the
  capacity. In all, a call with a positive step never returns a vector.
\<close>

lemma int_add_ok: "in_int (x + y) \<Longrightarrow> int_add x y = Inr (x + y)"
  by (simp add: int_add_def checked_def)

lemma int_sub_ok: "in_int (x - y) \<Longrightarrow> int_sub x y = Inr (x - y)"
  by (simp add: int_sub_def checked_def)

lemma int_div_pos:
  assumes "0 \<le> x" and "0 < y" and "in_int x"
  shows "int_div x y = Inr (x div y)"
proof -
  have "0 \<le> x div y"
    using assms by (simp add: pos_imp_zdiv_nonneg_iff)
  moreover have "x div y \<le> x"
    using assms(1) by (cases "x = 0") (simp_all add: int_div_le_self)
  ultimately have "in_int (x div y)"
    using assms(3) by (simp add: in_int_def INT_MIN_def)
  moreover have "sgn x * sgn y * (\<bar>x\<bar> div \<bar>y\<bar>) = x div y"
    using assms by (cases "x = 0") (simp_all add: sgn_if)
  ultimately show ?thesis
    using assms(2) by (simp add: int_div_def checked_def)
qed

lemma div_times_le:
  fixes x y :: int
  assumes "0 < y"
  shows "x div y * y \<le> x"
proof -
  have "x div y * y = x - x mod y"
    by (simp add: minus_mod_eq_div_mult)
  moreover have "0 \<le> x mod y"
    using assms by simp
  ultimately show ?thesis
    by simp
qed

lemma take_Suc_update: "index < length out \<Longrightarrow> take (Suc index) (out[index := i]) = take index out @ [i]"
  by (simp add: take_Suc_conv_app_nth)

lemma asc_loop_overrun:
  assumes "0 < delta" and "in_int (b + delta)"
  shows "index \<le> length out \<Longrightarrow> in_int i \<Longrightarrow>
         i + int (length out - index) * delta \<le> b + delta \<Longrightarrow>
         asc_loop b delta i index out =
           Inl (OutOfBounds (length out) (i + int (length out - index) * delta)
                  (take index out @ map (\<lambda>k. i + int k * delta) [0..<length out - index]))"
proof (induction "length out - index" arbitrary: i index out)
  case 0
  then show ?case using assms
    by (subst asc_loop.simps) (simp add: int_add_ok)
next
  case (Suc n)
  have len: "length out - index = Suc n"
    using Suc.hyps(2) by simp
  have lt: "index < length out"
    using len by simp
  have len': "length (out[index := i]) - Suc index = n"
    using len by simp
  have unroll: "int (Suc n) * delta = delta + int n * delta"
    by (simp add: distrib_right)
  have total: "i + delta + int n * delta \<le> b + delta"
    using Suc.prems(3) unfolding len unroll by simp
  have "0 \<le> int n * delta"
    using assms(1) by simp
  with total have le: "i + delta \<le> b + delta"
    by linarith
  have step: "in_int (i + delta)"
    using le assms Suc.prems(2) by (simp add: in_int_def)
  have ih: "asc_loop b delta (i + delta) (Suc index) (out[index := i]) =
      Inl (OutOfBounds (length out) (i + delta + int n * delta)
        (take (Suc index) (out[index := i]) @ map (\<lambda>k. i + delta + int k * delta) [0..<n]))"
    using Suc.hyps(1) [of "out[index := i]" "Suc index" "i + delta"] lt step total
    unfolding len' by simp
  have shift: "map (\<lambda>k. i + int k * delta) [0..<Suc n] =
      i # map (\<lambda>k. i + delta + int k * delta) [0..<n]"
    by (simp add: map_upt_Suc distrib_right del: upt_Suc)
  have enter: "i \<le> b + delta"
    using le assms(1) by linarith
  have "asc_loop b delta i index out = asc_loop b delta (i + delta) (Suc index) (out[index := i])"
    using enter lt by (subst asc_loop.simps) (simp add: int_add_ok assms(2) step)
  also note ih
  finally show ?case
    unfolding len unroll shift using lt by (simp add: take_Suc_update)
qed


lemma desc_loop_overrun:
  assumes "0 < delta" and "in_int (b - delta)"
  shows "index \<le> length out \<Longrightarrow> in_int i \<Longrightarrow>
         b - delta \<le> i - int (length out - index) * delta \<Longrightarrow>
         desc_loop b delta i index out =
           Inl (OutOfBounds (length out) (i - int (length out - index) * delta)
                  (take index out @ map (\<lambda>k. i - int k * delta) [0..<length out - index]))"
proof (induction "length out - index" arbitrary: i index out)
  case 0
  then show ?case using assms
    by (subst desc_loop.simps) (simp add: int_sub_ok)
next
  case (Suc n)
  have len: "length out - index = Suc n"
    using Suc.hyps(2) by simp
  have lt: "index < length out"
    using len by simp
  have len': "length (out[index := i]) - Suc index = n"
    using len by simp
  have unroll: "int (Suc n) * delta = delta + int n * delta"
    by (simp add: distrib_right)
  have total: "b - delta \<le> i - delta - int n * delta"
    using Suc.prems(3) unfolding len unroll by simp
  have "0 \<le> int n * delta"
    using assms(1) by simp
  with total have le: "b - delta \<le> i - delta"
    by linarith
  have step: "in_int (i - delta)"
    using le assms Suc.prems(2) by (simp add: in_int_def)
  have ih: "desc_loop b delta (i - delta) (Suc index) (out[index := i]) =
      Inl (OutOfBounds (length out) (i - delta - int n * delta)
        (take (Suc index) (out[index := i]) @ map (\<lambda>k. i - delta - int k * delta) [0..<n]))"
    using Suc.hyps(1) [of "out[index := i]" "Suc index" "i - delta"] lt step total
    unfolding len' by simp
  have shift: "map (\<lambda>k. i - int k * delta) [0..<Suc n] =
      i # map (\<lambda>k. i - delta - int k * delta) [0..<n]"
    by (simp add: map_upt_Suc distrib_right del: upt_Suc)
  have enter: "b - delta \<le> i"
    using le assms(1) by linarith
  have "desc_loop b delta i index out = desc_loop b delta (i - delta) (Suc index) (out[index := i])"
    using enter lt by (subst desc_loop.simps) (simp add: int_sub_ok assms(2) step)
  also note ih
  finally show ?case
    unfolding len unroll shift using lt by (simp add: take_Suc_update)
qed

lemma range_ascending_overrun:
  assumes "a < b" and "0 < delta"
    and "in_int a" and "in_int (b - a + delta)" and "in_int (b + delta)"
  defines "cap \<equiv> nat ((b - a) div delta + 1)"
  shows "range_raft a b delta =
           Inl (OutOfBounds cap (a + int cap * delta) (map (\<lambda>k. a + int k * delta) [0..<cap]))"
proof -
  have d: "int_sub b a = Inr (b - a)"
    using assms(1,2,4) by (intro int_sub_ok) (simp add: in_int_def INT_MIN_def)
  have n: "int_add (b - a) delta = Inr (b - a + delta)"
    using assms(4) by (rule int_add_ok)
  have q: "(b - a + delta) div delta = (b - a) div delta + 1"
    using assms(2) div_add_self2 [of delta "b - a"] by simp
  have c: "int_div (b - a + delta) delta = Inr ((b - a) div delta + 1)"
    using int_div_pos [of "b - a + delta" delta] assms(1,2,4) q by simp
  have nonneg: "0 \<le> (b - a) div delta"
    using assms(1,2) by (simp add: pos_imp_zdiv_nonneg_iff)
  then have v: "vector_alloc ((b - a) div delta + 1) = Inr (replicate cap 0)"
    by (simp add: vector_alloc_def cap_def)
  have icap: "int cap = (b - a) div delta + 1"
    using nonneg by (simp add: cap_def)
  have "(b - a) div delta * delta \<le> b - a"
    using assms(2) by (rule div_times_le)
  then have fits: "a + int (length (replicate cap (0::int)) - 0) * delta \<le> b + delta"
    by (simp add: icap distrib_right)
  have "range_raft a b delta = asc_loop b delta a 0 (replicate cap 0)"
    using assms(1) by (simp add: range_raft_def and_then_def d n c v)
  also have "\<dots> = Inl (OutOfBounds cap (a + int cap * delta) (map (\<lambda>k. a + int k * delta) [0..<cap]))"
    using asc_loop_overrun [OF assms(2,5) _ assms(3) fits] by simp
  finally show ?thesis .
qed

lemma range_descending_overrun:
  assumes "b \<le> a" and "0 < delta"
    and "in_int a" and "in_int (a - b + delta)" and "in_int (b - delta)"
  defines "cap \<equiv> nat ((a - b) div delta + 1)"
  shows "range_raft a b delta =
           Inl (OutOfBounds cap (a - int cap * delta) (map (\<lambda>k. a - int k * delta) [0..<cap]))"
proof -
  have d: "int_sub a b = Inr (a - b)"
    using assms(1,2,4) by (intro int_sub_ok) (simp add: in_int_def INT_MIN_def)
  have n: "int_add (a - b) delta = Inr (a - b + delta)"
    using assms(4) by (rule int_add_ok)
  have q: "(a - b + delta) div delta = (a - b) div delta + 1"
    using assms(2) div_add_self2 [of delta "a - b"] by simp
  have c: "int_div (a - b + delta) delta = Inr ((a - b) div delta + 1)"
    using int_div_pos [of "a - b + delta" delta] assms(1,2,4) q by simp
  have nonneg: "0 \<le> (a - b) div delta"
    using assms(1,2) by (simp add: pos_imp_zdiv_nonneg_iff)
  then have v: "vector_alloc ((a - b) div delta + 1) = Inr (replicate cap 0)"
    by (simp add: vector_alloc_def cap_def)
  have icap: "int cap = (a - b) div delta + 1"
    using nonneg by (simp add: cap_def)
  have "(a - b) div delta * delta \<le> a - b"
    using assms(2) by (rule div_times_le)
  then have fits: "b - delta \<le> a - int (length (replicate cap (0::int)) - 0) * delta"
    by (simp add: icap distrib_right)
  have "range_raft a b delta = desc_loop b delta a 0 (replicate cap 0)"
    using assms(1) by (simp add: range_raft_def and_then_def d n c v)
  also have "\<dots> = Inl (OutOfBounds cap (a - int cap * delta) (map (\<lambda>k. a - int k * delta) [0..<cap]))"
    using desc_loop_overrun [OF assms(2,5) _ assms(3) fits] by simp
  finally show ?thesis .
qed


lemma int_add_overflow: "\<not> in_int (x + y) \<Longrightarrow> int_add x y = Inl SignedOverflow"
  by (simp add: int_add_def checked_def)

lemma int_sub_overflow: "\<not> in_int (x - y) \<Longrightarrow> int_sub x y = Inl SignedOverflow"
  by (simp add: int_sub_def checked_def)

lemma range_positive_step_no_vector:
  assumes "0 < delta" and "in_int a"
  shows "\<exists>e. range_raft a b delta = Inl e"
proof (cases "a < b")
  case up: True
  consider "\<not> in_int (b - a)"
    | "in_int (b - a)" and "\<not> in_int (b - a + delta)"
    | "in_int (b - a + delta)" and "\<not> in_int (b + delta)"
    | "in_int (b - a + delta)" and "in_int (b + delta)"
    by blast
  then show ?thesis
  proof cases
    case 1
    with up show ?thesis
      by (simp add: range_raft_def and_then_def int_sub_overflow)
  next
    case 2
    with up show ?thesis
      by (simp add: range_raft_def and_then_def int_sub_ok int_add_overflow)
  next
    case 3
    then have "asc_loop b delta a 0 out = Inl SignedOverflow" for out
      by (subst asc_loop.simps) (simp add: int_add_overflow)
    with up show ?thesis
      by (simp add: range_raft_def and_then_def split: sum.splits)
  next
    case 4
    with range_ascending_overrun [OF up assms] show ?thesis
      by simp
  qed
next
  case down: False
  consider "\<not> in_int (a - b)"
    | "in_int (a - b)" and "\<not> in_int (a - b + delta)"
    | "in_int (a - b + delta)" and "\<not> in_int (b - delta)"
    | "in_int (a - b + delta)" and "in_int (b - delta)"
    by blast
  then show ?thesis
  proof cases
    case 1
    with down show ?thesis
      by (simp add: range_raft_def and_then_def int_sub_overflow)
  next
    case 2
    with down show ?thesis
      by (simp add: range_raft_def and_then_def int_sub_ok int_add_overflow)
  next
    case 3
    then have "desc_loop b delta a 0 out = Inl SignedOverflow" for out
      by (subst desc_loop.simps) (simp add: int_sub_overflow)
    with down show ?thesis
      by (simp add: range_raft_def and_then_def split: sum.splits)
  next
    case 4
    with range_descending_overrun [of b a delta] down assms show ?thesis
      by simp
  qed
qed

section \<open>The claims about range\<close>

text \<open>
  C3: every write \<^verbatim>\<open>out[index]\<close> of the fill loop is inside the vector. The
  code breaks this: with bounds 2 and 3 and step 1 the vector has two elements
  and the third iteration writes at index 2; the descending loop does the same
  from 3 down to 2; with bounds 1 and 2 and step -1 the vector is empty and
  the first iteration writes at index 0.
\<close>

theorem range_writes_past_capacity:
  "range_raft 2 3 1 = Inl (OutOfBounds 2 4 [2, 3]) \<and>
   range_raft 3 2 1 = Inl (OutOfBounds 2 1 [3, 2]) \<and>
   range_raft 1 2 (- 1) = Inl (OutOfBounds 0 1 [])"
  by code_simp

text \<open>
  C1: the ascending call returns \<open>floor((b - a) / delta) + 1\<close> elements from
  \<open>a\<close> in steps of \<open>delta\<close>, the last one at most \<open>b\<close>. With bounds 1 and 4 and
  step 2 the code fills the two elements 1 and 3 and then writes 5, a value
  above \<open>b\<close>, at index 2 of the two-element vector, so that the call has no
  defined result.
\<close>

theorem range_ascending_1_4_2:
  "range_raft 1 4 2 = Inl (OutOfBounds 2 5 [1, 3])"
  by code_simp

text \<open>
  C2: the call with \<open>a \<ge> b\<close> returns a strictly decreasing sequence from \<open>a\<close>
  whose last element is at least \<open>b\<close>. With bounds 7 and 2 and step 2 the code
  takes the descending branch, fills 7, 5 and 3, and then writes 1, a value
  below \<open>b\<close>, at index 3 of the three-element vector.
\<close>

theorem range_descending_7_2_2:
  "range_raft 7 2 2 = Inl (OutOfBounds 3 1 [7, 5, 3])"
  by code_simp

text \<open>
  C4: with the default step, \<^verbatim>\<open>range(1, 5)\<close> is 1, 2, 3, 4, 5 and
  \<^verbatim>\<open>range(5, 1)\<close> is 5, 4, 3, 2, 1. The code fills these five elements and
  then writes a sixth (6, respectively 0) at index 5 of the five-element vector.
\<close>

theorem range_default_1_5_and_5_1:
  "range_default 1 5 = Inl (OutOfBounds 5 6 [1, 2, 3, 4, 5]) \<and>
   range_default 5 1 = Inl (OutOfBounds 5 0 [5, 4, 3, 2, 1])"
  by code_simp

text \<open>
  C5: \<^verbatim>\<open>range(0, 10, 2)\<close> is 0, 2, 4, 6, 8, 10. The code fills these six
  elements and then writes 12 at index 6 of the six-element vector.
\<close>

theorem range_0_10_2:
  "range_raft 0 10 2 = Inl (OutOfBounds 6 12 [0, 2, 4, 6, 8, 10])"
  by code_simp

section \<open>Properties of the folds\<close>

lemma sum_helper_popped: "fst (sum_helper pop ports w) = foldr (+) (popped pop ports w) 0"
  by (induction ports arbitrary: w) (simp_all add: case_prod_beta)

lemma mult_helper_popped: "fst (mult_helper pop ports w) = foldr (*) (popped pop ports w) 1"
  by (induction ports arbitrary: w) (simp_all add: case_prod_beta)

lemma sum_helper_logged:
  "sum_helper (logged pop) ports (w, log) =
     (fst (sum_helper pop ports w), (snd (sum_helper pop ports w), log @ ports))"
  by (induction ports arbitrary: w log) (simp_all add: logged_def case_prod_beta)

lemma mult_helper_logged:
  "mult_helper (logged pop) ports (w, log) =
     (fst (mult_helper pop ports w), (snd (mult_helper pop ports w), log @ ports))"
  by (induction ports arbitrary: w log) (simp_all add: logged_def case_prod_beta)

lemma sum_helper_calls:
  "snd (sum_helper (sourceYielding yields) ports calls) p = calls p + count_list ports p"
  by (induction ports arbitrary: calls) (simp_all add: sourceYielding_def case_prod_beta)

lemma mult_helper_calls:
  "snd (mult_helper (sourceYielding yields) ports calls) p = calls p + count_list ports p"
  by (induction ports arbitrary: calls) (simp_all add: sourceYielding_def case_prod_beta)

lemma sum_helper_fixed:
  fixes yields :: "'p \<Rightarrow> 'a::comm_monoid_add"
  assumes "\<And>p w. fst (pop p w) = yields p"
  shows "fst (sum_helper pop ports w) = sum_list (map yields ports)"
proof (induction ports arbitrary: w)
  case Nil
  show ?case by simp
next
  case (Cons port ports)
  have "fst (pop port w) = yields port"
    by (rule assms)
  with Cons show ?case
    by (simp add: case_prod_beta)
qed

lemma mult_helper_fixed:
  fixes yields :: "'p \<Rightarrow> 'a::comm_monoid_mult"
  assumes "\<And>p w. fst (pop p w) = yields p"
  shows "fst (mult_helper pop ports w) = prod_list (map yields ports)"
proof (induction ports arbitrary: w)
  case Nil
  show ?case by simp
next
  case (Cons port ports)
  have "fst (pop port w) = yields port"
    by (rule assms)
  with Cons show ?case
    by (simp add: case_prod_beta)
qed

text \<open>
  C6: for every arithmetic result type, \<^verbatim>\<open>sum\<close> without sources returns 0 and
  \<^verbatim>\<open>mult\<close> without sources returns 1, and neither pops anything: the world
  is returned as it was, whatever \<open>pop\<close> would do, and the log of calls stays
  empty.
\<close>

theorem fold_no_sources:
  "sum_raft pop [] w = (0, w) \<and>
   mult_raft pop [] w = (1, w) \<and>
   snd (snd (sum_raft (logged pop) [] (w, []))) = [] \<and>
   snd (snd (mult_raft (logged pop) [] (w, []))) = []"
  by (simp add: sum_raft_def mult_raft_def)

text \<open>
  C7: a call of \<^verbatim>\<open>sum\<close> or \<^verbatim>\<open>mult\<close> pops each of its sources exactly once, in
  argument order. The calls of \<open>pop\<close> made by the fold are exactly the
  argument list, in its order; and on the test doubles, the call counter of a
  double goes up by the number of times it occurs among the arguments, which is
  one for each source of a call on distinct sources.
\<close>

theorem fold_pops_each_once_in_order:
  "snd (snd (sum_raft (logged pop) ports (w, log))) = log @ ports \<and>
   snd (snd (mult_raft (logged pop) ports (w, log))) = log @ ports \<and>
   snd (sum_raft (sourceYielding yields) ports calls) p = calls p + count_list ports p \<and>
   snd (mult_raft (sourceYielding yields) ports calls) p = calls p + count_list ports p"
  by (simp add: sum_raft_def mult_raft_def sum_helper_logged mult_helper_logged
      sum_helper_calls mult_helper_calls)

text \<open>
  C8: on a nonempty list of sources the result is the value popped from the
  first source, combined by \<open>+\<close> (by \<open>*\<close> for \<^verbatim>\<open>mult\<close>) with the fold of the
  remaining sources run on the world the first pop left; so the popped values
  are combined nested to the right, ending in the identity.
\<close>

theorem fold_first_with_rest:
  "sum_raft pop (port # ports) w =
     (case pop port w of (val, w1) \<Rightarrow>
        (case sum_raft pop ports w1 of (r, w2) \<Rightarrow> (val + r, w2))) \<and>
   mult_raft pop (port # ports) w =
     (case pop port w of (val, w1) \<Rightarrow>
        (case mult_raft pop ports w1 of (r, w2) \<Rightarrow> (val * r, w2))) \<and>
   fst (sum_raft pop (port # ports) w) = foldr (+) (popped pop (port # ports) w) 0 \<and>
   fst (mult_raft pop (port # ports) w) = foldr (*) (popped pop (port # ports) w) 1"
  unfolding sum_raft_def mult_raft_def sum_helper_popped mult_helper_popped
  by simp

text \<open>
  C9: when the first source yields 3 and the second yields 4, \<^verbatim>\<open>sum\<close> over the
  two returns 7 and \<^verbatim>\<open>mult\<close> returns 12.
\<close>

theorem fold_3_and_4:
  fixes pop :: "'p \<Rightarrow> 'w \<Rightarrow> int \<times> 'w"
  assumes "fst (pop p w) = 3" and "fst (pop q (snd (pop p w))) = 4"
  shows "fst (sum_raft pop [p, q] w) = 7 \<and> fst (mult_raft pop [p, q] w) = 12"
  using assms by (simp add: sum_raft_def mult_raft_def case_prod_beta)

theorem fold_3_and_4_witness:
  "fst (sum_raft (sourceYielding (\<lambda>p::nat. if p = 0 then 3 else (4::int))) [0, 1] (\<lambda>p. 0)) = 7 \<and>
   fst (mult_raft (sourceYielding (\<lambda>p::nat. if p = 0 then 3 else (4::int))) [0, 1] (\<lambda>p. 0)) = 12"
  using fold_3_and_4 [of "sourceYielding (\<lambda>p::nat. if p = 0 then 3 else (4::int))" 0 "\<lambda>p. 0" 1]
  by (simp add: sourceYielding_def)

text \<open>
  C10: when every source yields a fixed value and the arithmetic is exact (the
  integers, or any commutative semiring), \<^verbatim>\<open>sum\<close> and \<^verbatim>\<open>mult\<close> return the
  same result on every permutation of the sources.
\<close>

theorem fold_permutation:
  fixes yields :: "'p \<Rightarrow> 'a::comm_semiring_1"
  assumes "\<And>p w. fst (pop p w) = yields p" and "mset ports = mset ports'"
  shows "fst (sum_raft pop ports w) = fst (sum_raft pop ports' w) \<and>
         fst (mult_raft pop ports w) = fst (mult_raft pop ports' w)"
proof -
  have "sum_list (map yields ports) = sum_mset (image_mset yields (mset ports))"
    by (simp flip: sum_mset_sum_list)
  also have "\<dots> = sum_list (map yields ports')"
    by (simp add: assms(2) flip: sum_mset_sum_list)
  finally have s: "sum_list (map yields ports) = sum_list (map yields ports')" .
  have "prod_list (map yields ports) = prod_mset (image_mset yields (mset ports))"
    by (simp flip: prod_mset_prod_list)
  also have "\<dots> = prod_list (map yields ports')"
    by (simp add: assms(2) flip: prod_mset_prod_list)
  finally have p: "prod_list (map yields ports) = prod_list (map yields ports')" .
  from s p show ?thesis
    by (simp add: sum_raft_def mult_raft_def
        sum_helper_fixed [of pop yields, OF assms(1)]
        mult_helper_fixed [of pop yields, OF assms(1)])
qed

theorem fold_permutation_witness:
  "fst (sum_raft (sourceYielding (\<lambda>p::nat. int p + 2)) [0, 1, 2] (\<lambda>p. 0)) =
     fst (sum_raft (sourceYielding (\<lambda>p::nat. int p + 2)) [2, 0, 1] (\<lambda>p. 0)) \<and>
   fst (mult_raft (sourceYielding (\<lambda>p::nat. int p + 2)) [0, 1, 2] (\<lambda>p. 0)) =
     fst (mult_raft (sourceYielding (\<lambda>p::nat. int p + 2)) [2, 0, 1] (\<lambda>p. 0))"
  using fold_permutation [of "sourceYielding (\<lambda>p::nat. int p + 2)" "\<lambda>p::nat. int p + 2"
      "[0, 1, 2]" "[2, 0, 1]" "\<lambda>p. 0"]
  by (simp add: sourceYielding_def)

end
